theory Spec2Isabelle
  imports Complex_Main
begin

section \<open>Payloads: the values \<open>response.json()\<close> hands to the model\<close>

text \<open>
  A decoded JSON document as the Python object it is: \<open>None\<close>, \<open>bool\<close>, \<open>int\<close>,
  \<open>float\<close> (a finite one, by its exact value), \<open>str\<close>, \<open>list\<close> and \<open>dict\<close>. A dict
  is its items in insertion order; the keys of a decoded JSON object are strings, the dict
  that \<open>parse_list\<close> builds has whatever first elements the pairs carry. Strings are
  byte strings (UTF-8): the program only compares them, tests them for emptiness, splits
  at \<open>/\<close> and replaces \<open>_\<close>, which UTF-8 preserves.
\<close>

datatype pyval =
    PNone
  | PBool bool
  | PInt int
  | PFloat rat
  | PStr string
  | PList "pyval list"
  | PDict "(pyval \<times> pyval) list"

text \<open>
  The exceptions the program meets. All derive from \<open>Exception\<close> but
  \<open>asyncio.CancelledError\<close>, which derives from \<open>BaseException\<close> only: it is what a
  process interruption raises at the pending \<open>await\<close>.
\<close>

datatype exc =
    HTTPError
  | JSONDecodeError
  | TypeError
  | ValidationError
  | OtherError
  | CancelledError

definition is_Exception :: "exc \<Rightarrow> bool" where
  "is_Exception e = (e \<noteq> CancelledError)"

subsection \<open>Python dicts\<close>

text \<open>Lists and dicts are unhashable: using one as a dict key raises \<open>TypeError\<close>.\<close>

fun hashable :: "pyval \<Rightarrow> bool" where
  "hashable (PList _) = False"
| "hashable (PDict _) = False"
| "hashable _ = True"

text \<open>
  Key equality is Python's \<open>==\<close> on hashable values: \<open>bool\<close>, \<open>int\<close> and \<open>float\<close>
  compare by numeric value (\<open>True == 1 == 1.0\<close>), everything else with its own kind.
\<close>

fun key_num :: "pyval \<Rightarrow> rat option" where
  "key_num (PBool b) = Some (if b then 1 else 0)"
| "key_num (PInt i) = Some (of_int i)"
| "key_num (PFloat q) = Some q"
| "key_num _ = None"

definition key_eq :: "pyval \<Rightarrow> pyval \<Rightarrow> bool" where
  "key_eq a b =
     (case (key_num a, key_num b) of
        (Some x, Some y) \<Rightarrow> x = y
      | (None, None) \<Rightarrow> a = b
      | _ \<Rightarrow> False)"

fun dict_get :: "(pyval \<times> pyval) list \<Rightarrow> pyval \<Rightarrow> pyval option" where
  "dict_get [] k = None"
| "dict_get ((k', v) # kvs) k = (if key_eq k' k then Some v else dict_get kvs k)"

text \<open>\<open>d[k] = v\<close>: an equal key keeps its place (and the key object), a new one goes last.\<close>

fun dict_set :: "(pyval \<times> pyval) list \<Rightarrow> pyval \<Rightarrow> pyval \<Rightarrow> (pyval \<times> pyval) list" where
  "dict_set [] k v = [(k, v)]"
| "dict_set ((k', v') # kvs) k v =
     (if key_eq k' k then (k', v) # kvs else (k', v') # dict_set kvs k v)"

section \<open>\<open>RadioStatus\<close>\<close>

record RadioStatus =
  encoder :: "string option"
  filename :: "string option"
  initial_uri :: "string option"
  language :: "string option"
  rid :: "string option"
  status :: "string option"
  temporary :: "string option"
  title :: "string option"
  vendor :: "string option"

definition no_fields :: RadioStatus where
  "no_fields =
     \<lparr>encoder = None, filename = None, initial_uri = None, language = None, rid = None,
      status = None, temporary = None, title = None, vendor = None\<rparr>"

subsection \<open>The \<open>before\<close> validator \<open>parse_list\<close>\<close>

text \<open>\<open>isinstance(item, list) and len(item) == 2\<close>, giving \<open>(item[0], item[1])\<close>.\<close>

fun as_pair :: "pyval \<Rightarrow> (pyval \<times> pyval) option" where
  "as_pair (PList [k, v]) = Some (k, v)"
| "as_pair _ = None"

text \<open>
  The dict comprehension, item by item: an item that passes the filter is stored under its
  first element, which raises \<open>TypeError\<close> when that is unhashable.
\<close>

fun comprehension :: "pyval list \<Rightarrow> (pyval \<times> pyval) list \<Rightarrow> exc + (pyval \<times> pyval) list" where
  "comprehension [] d = Inr d"
| "comprehension (item # items) d =
     (case as_pair item of
        None \<Rightarrow> comprehension items d
      | Some (k, v) \<Rightarrow>
          if hashable k then comprehension items (dict_set d k v) else Inl TypeError)"

definition parse_list :: "pyval \<Rightarrow> exc + pyval" where
  "parse_list data =
     (case data of
        PList items \<Rightarrow>
          (case comprehension items [] of Inl e \<Rightarrow> Inl e | Inr d \<Rightarrow> Inr (PDict d))
      | _ \<Rightarrow> Inr data)"

subsection \<open>Validation of the fields\<close>

text \<open>
  What pydantic does with the declarations \<open>name: str | None = None\<close> of the class (version
  2, default configuration): the validated input must be a dict; a field whose name is not
  a key takes its default \<open>None\<close>; a value that is \<open>None\<close> or a \<open>str\<close> is kept; any other
  value is a validation error; keys that name no field are ignored.
\<close>

fun field_ok :: "pyval option \<Rightarrow> bool" where
  "field_ok None = True"
| "field_ok (Some PNone) = True"
| "field_ok (Some (PStr _)) = True"
| "field_ok (Some _) = False"

fun field_value :: "pyval option \<Rightarrow> string option" where
  "field_value (Some (PStr s)) = Some s"
| "field_value _ = None"

definition field_names :: "string list" where
  "field_names =
     [''encoder'', ''filename'', ''initial_uri'', ''language'', ''rid'', ''status'',
      ''temporary'', ''title'', ''vendor'']"

definition get_field :: "(pyval \<times> pyval) list \<Rightarrow> string \<Rightarrow> pyval option" where
  "get_field d name = dict_get d (PStr name)"

definition validate_fields :: "(pyval \<times> pyval) list \<Rightarrow> exc + RadioStatus" where
  "validate_fields d =
     (if list_all (\<lambda>name. field_ok (get_field d name)) field_names
      then Inr \<lparr>encoder = field_value (get_field d ''encoder''),
                filename = field_value (get_field d ''filename''),
                initial_uri = field_value (get_field d ''initial_uri''),
                language = field_value (get_field d ''language''),
                rid = field_value (get_field d ''rid''),
                status = field_value (get_field d ''status''),
                temporary = field_value (get_field d ''temporary''),
                title = field_value (get_field d ''title''),
                vendor = field_value (get_field d ''vendor'')\<rparr>
      else Inl ValidationError)"

definition model_validate :: "pyval \<Rightarrow> exc + RadioStatus" where
  "model_validate data =
     (case parse_list data of
        Inl e \<Rightarrow> Inl e
      | Inr (PDict d) \<Rightarrow> validate_fields d
      | Inr _ \<Rightarrow> Inl ValidationError)"

section \<open>The display title\<close>

text \<open>\<open>s.split(sep)\<close> for a one-character separator: never an empty list.\<close>

fun str_split :: "char \<Rightarrow> string \<Rightarrow> string list" where
  "str_split sep [] = [[]]"
| "str_split sep (c # cs) =
     (if c = sep then [] # str_split sep cs
      else (case str_split sep cs of
              [] \<Rightarrow> [[c]]
            | part # parts \<Rightarrow> (c # part) # parts))"

definition str_replace :: "char \<Rightarrow> char \<Rightarrow> string \<Rightarrow> string" where
  "str_replace old new s = map (\<lambda>c. if c = old then new else c) s"

text \<open>Truth value of a \<open>str | None\<close>: \<open>None\<close> and the empty string are false.\<close>

fun truthy :: "string option \<Rightarrow> bool" where
  "truthy None = False"
| "truthy (Some s) = (s \<noteq> [])"

text \<open>Lines 120 to 123 of \<open>main\<close>: the title taken from the filename.\<close>

definition filename_title :: "string option \<Rightarrow> string" where
  "filename_title fn =
     (case fn of
        Some f \<Rightarrow>
          if truthy (Some f)
          then str_replace (CHR ''_'') (CHR '' '') (last (str_split (CHR ''/'') f))
          else ''Unknown Song''
      | None \<Rightarrow> ''Unknown Song'')"

text \<open>Lines 118 to 123: the value of \<open>song_title\<close> before the comparison.\<close>

definition display_title :: "RadioStatus \<Rightarrow> string" where
  "display_title st =
     (case title st of
        Some t \<Rightarrow> if truthy (Some t) then t else filename_title (filename st)
      | None \<Rightarrow> filename_title (filename st))"

text \<open>
  Line 125, \<open>song_title and song_title != current_title\<close>: a string differs from
  \<open>None\<close>, and from another string when they are not equal.
\<close>

fun str_ne :: "string \<Rightarrow> string option \<Rightarrow> bool" where
  "str_ne s None = True"
| "str_ne s (Some t) = (s \<noteq> t)"

definition should_notify :: "string \<Rightarrow> string option \<Rightarrow> bool" where
  "should_notify song_title current_title =
     (truthy (Some song_title) \<and> str_ne song_title current_title)"

section \<open>The program and its environment\<close>

record settings =
  matrix_homeserver :: string
  matrix_user :: string
  matrix_password :: string
  matrix_room_id :: string
  matrix_send_messages :: bool
  matrix_update_topic :: bool
  radio_name :: string
  radio_stream_url :: string
  radio_api_url :: string
  poll_interval :: int

text \<open>What the program does that can be seen from outside, in order.\<close>

datatype client_call =
    Login
  | RoomResolveAlias string
  | Join string
  | RoomSend string string
  | RoomPutState string string
  | Logout
  | Close

datatype log_line =
    LogMissingConfig
  | LogLoginFailed
  | LogResolveFailed
  | LogJoinFailed
  | LogSetupFailed
  | LogInitialSong string
  | LogMusicChanged string
  | LogSendFailed
  | LogTopicFailed
  | LogTopicUpdated string
  | LogHttpWarning
  | LogUnexpected
  | LogClosing

datatype event = Call client_call | Log log_line | Get string | Sleep int

text \<open>
  What the environment answers. A call of the messaging client returns a response (an
  error response is a value, tested with \<open>isinstance\<close> or \<open>hasattr\<close>) or raises.
\<close>

datatype login_response = LoginResponse | LoginError
datatype resolve_response = RoomResolveAliasResponse string | RoomResolveAliasError
datatype join_response = JoinResponse | JoinError
datatype send_response = RoomSendResponse | RoomSendError
datatype put_state_response = RoomPutStateResponse | RoomPutStateError

text \<open>
  Setup and teardown: \<open>logout_res\<close> is the exception \<open>client.logout()\<close> raises, if any.
  \<open>client.close()\<close> releases the local connection and is taken to return.
\<close>

record setup_env =
  login_res :: "exc + login_response"
  resolve_res :: "exc + resolve_response"
  join_res :: "exc + join_response"
  logout_res :: "exc option"

text \<open>
  One poll: \<open>fetch_res\<close> is the outcome of lines 112 to 115 (\<open>get\<close>, \<open>raise_for_status\<close>,
  \<open>json\<close>), \<open>sleep_res\<close> the exception raised at \<open>asyncio.sleep\<close>, if any.
\<close>

record poll_env =
  fetch_res :: "exc + pyval"
  send_res :: "exc + send_response"
  topic_res :: "exc + put_state_response"
  sleep_res :: "exc option"

subsection \<open>One iteration of the poll loop\<close>

text \<open>The UTF-8 bytes of the musical note U+1F3B5 that starts both texts.\<close>

definition music_note :: string where
  "music_note = [CHR 0xF0, CHR 0x9F, CHR 0x8E, CHR 0xB5]"

definition message_body :: "string \<Rightarrow> string" where
  "message_body song_title = music_note @ '' Now playing: **'' @ song_title @ ''**''"

definition topic_text :: "settings \<Rightarrow> string \<Rightarrow> string" where
  "topic_text cfg song_title =
     ''['' @ radio_name cfg @ '']('' @ radio_stream_url cfg @ '') - '' @ music_note
       @ '' Now playing: '' @ song_title"

text \<open>Lines 131 to 146.\<close>

definition send_step :: "settings \<Rightarrow> string \<Rightarrow> poll_env \<Rightarrow> string \<Rightarrow> event list \<times> exc option" where
  "send_step cfg room env song_title =
     (if matrix_send_messages cfg
      then (case send_res env of
              Inl e \<Rightarrow> ([Call (RoomSend room (message_body song_title))], Some e)
            | Inr r \<Rightarrow>
                (Call (RoomSend room (message_body song_title))
                   # (if r = RoomSendError then [Log LogSendFailed] else []), None))
      else ([], None))"

text \<open>Lines 148 to 162.\<close>

definition topic_step :: "settings \<Rightarrow> string \<Rightarrow> poll_env \<Rightarrow> string \<Rightarrow> event list \<times> exc option" where
  "topic_step cfg room env song_title =
     (if matrix_update_topic cfg
      then (case topic_res env of
              Inl e \<Rightarrow> ([Call (RoomPutState room (topic_text cfg song_title))], Some e)
            | Inr r \<Rightarrow>
                ([Call (RoomPutState room (topic_text cfg song_title)),
                  Log (if r = RoomPutStateError then LogTopicFailed
                       else LogTopicUpdated (topic_text cfg song_title))], None))
      else ([], None))"

text \<open>
  Lines 126 to 164, the branch taken on a change: the log line, the two calls, then the
  assignment to \<open>current_title\<close>, which an exception raised by either call skips.
\<close>

definition dispatch :: "settings \<Rightarrow> string \<Rightarrow> poll_env \<Rightarrow> string \<Rightarrow> string option
    \<Rightarrow> event list \<times> string option \<times> exc option" where
  "dispatch cfg room env song_title current_title =
     (let announce =
            [Log (if current_title \<noteq> None then LogMusicChanged song_title
                  else LogInitialSong song_title)];
          (sent, r1) = send_step cfg room env song_title
      in case r1 of
           Some e \<Rightarrow> (announce @ sent, current_title, Some e)
         | None \<Rightarrow>
             (let (put, r2) = topic_step cfg room env song_title
              in case r2 of
                   Some e \<Rightarrow> (announce @ sent @ put, current_title, Some e)
                 | None \<Rightarrow> (announce @ sent @ put, Some song_title, None)))"

text \<open>Lines 112 to 164, the body of the inner \<open>try\<close>.\<close>

definition poll_body :: "settings \<Rightarrow> string \<Rightarrow> poll_env \<Rightarrow> string option
    \<Rightarrow> event list \<times> string option \<times> exc option" where
  "poll_body cfg room env current_title =
     (case fetch_res env of
        Inl e \<Rightarrow> ([Get (radio_api_url cfg)], current_title, Some e)
      | Inr data \<Rightarrow>
          (case model_validate data of
             Inl e \<Rightarrow> ([Get (radio_api_url cfg)], current_title, Some e)
           | Inr st \<Rightarrow>
               (let song_title = display_title st
                in if should_notify song_title current_title
                   then (let (evs, t, r) = dispatch cfg room env song_title current_title
                         in (Get (radio_api_url cfg) # evs, t, r))
                   else ([Get (radio_api_url cfg)], current_title, None))))"

text \<open>
  Lines 166 to 171, the two handlers: \<open>httpx.HTTPError\<close>, then \<open>Exception\<close>. What is
  neither leaves the loop.
\<close>

definition handlers :: "event list \<times> string option \<times> exc option
    \<Rightarrow> event list \<times> string option \<times> exc option" where
  "handlers outcome =
     (case outcome of
        (evs, t, None) \<Rightarrow> (evs, t, None)
      | (evs, t, Some e) \<Rightarrow>
          if e = HTTPError then (evs @ [Log LogHttpWarning], t, None)
          else if is_Exception e then (evs @ [Log LogUnexpected], t, None)
          else (evs, t, Some e))"

text \<open>Lines 111 to 173: one turn of \<open>while True\<close>, the sleep included.\<close>

definition poll_iteration :: "settings \<Rightarrow> string \<Rightarrow> poll_env \<Rightarrow> string option
    \<Rightarrow> event list \<times> string option \<times> exc option" where
  "poll_iteration cfg room env current_title =
     (case handlers (poll_body cfg room env current_title) of
        (evs, t, Some e) \<Rightarrow> (evs, t, Some e)
      | (evs, t, None) \<Rightarrow> (evs @ [Sleep (poll_interval cfg)], t, sleep_res env))"

text \<open>
  The loop over the polls the environment has answered so far. It ends only when an
  exception leaves an iteration; with the answers used up and none raised it is still
  running, which the result \<open>None\<close> says.
\<close>

fun poll_loop :: "settings \<Rightarrow> string \<Rightarrow> poll_env list \<Rightarrow> string option
    \<Rightarrow> event list \<times> string option \<times> exc option" where
  "poll_loop cfg room [] current_title = ([], current_title, None)"
| "poll_loop cfg room (env # envs) current_title =
     (case poll_iteration cfg room env current_title of
        (evs, t, Some e) \<Rightarrow> (evs, t, Some e)
      | (evs, t, None) \<Rightarrow>
          (case poll_loop cfg room envs t of
             (evs', t', r) \<Rightarrow> (evs @ evs', t', r)))"

subsection \<open>Setup, the loop and teardown: \<open>main\<close>\<close>

text \<open>How a block of statements ends: it falls through with a value, returns, or raises.\<close>

datatype 'a flow = Proceed 'a | Return | Raise exc

definition startswith_hash :: "string \<Rightarrow> bool" where
  "startswith_hash s = (case s of [] \<Rightarrow> False | c # _ \<Rightarrow> c = CHR ''#'')"

text \<open>Line 58: \<open>all([...])\<close> of four strings.\<close>

definition config_complete :: "settings \<Rightarrow> bool" where
  "config_complete cfg =
     (matrix_user cfg \<noteq> [] \<and> matrix_password cfg \<noteq> [] \<and> matrix_room_id cfg \<noteq> []
      \<and> radio_api_url cfg \<noteq> [])"

text \<open>Lines 85 to 87 and 95 to 97: \<open>logout\<close>, \<open>close\<close>, \<open>return\<close>.\<close>

definition logout_close_return :: "setup_env \<Rightarrow> event list \<times> string flow" where
  "logout_close_return env =
     (case logout_res env of
        Some e \<Rightarrow> ([Call Logout], Raise e)
      | None \<Rightarrow> ([Call Logout, Call Close], Return))"

text \<open>Lines 78 to 89.\<close>

definition resolve_step :: "settings \<Rightarrow> setup_env \<Rightarrow> event list \<times> string flow" where
  "resolve_step cfg env =
     (if startswith_hash (matrix_room_id cfg)
      then (case resolve_res env of
              Inl e \<Rightarrow> ([Call (RoomResolveAlias (matrix_room_id cfg))], Raise e)
            | Inr RoomResolveAliasError \<Rightarrow>
                (case logout_close_return env of
                   (evs, r) \<Rightarrow>
                     (Call (RoomResolveAlias (matrix_room_id cfg)) # Log LogResolveFailed # evs, r))
            | Inr (RoomResolveAliasResponse room) \<Rightarrow>
                ([Call (RoomResolveAlias (matrix_room_id cfg))], Proceed room))
      else ([], Proceed (matrix_room_id cfg)))"

text \<open>Lines 91 to 97.\<close>

definition join_step :: "setup_env \<Rightarrow> string \<Rightarrow> event list \<times> string flow" where
  "join_step env room =
     (case join_res env of
        Inl e \<Rightarrow> ([Call (Join room)], Raise e)
      | Inr JoinError \<Rightarrow>
          (case logout_close_return env of
             (evs, r) \<Rightarrow> (Call (Join room) # Log LogJoinFailed # evs, r))
      | Inr JoinResponse \<Rightarrow> ([Call (Join room)], Proceed room))"

text \<open>Lines 69 to 97, the body of the first \<open>try\<close>.\<close>

definition setup_body :: "settings \<Rightarrow> setup_env \<Rightarrow> event list \<times> string flow" where
  "setup_body cfg env =
     (case login_res env of
        Inl e \<Rightarrow> ([Call Login], Raise e)
      | Inr LoginError \<Rightarrow> ([Call Login, Log LogLoginFailed, Call Close], Return)
      | Inr LoginResponse \<Rightarrow>
          (case resolve_step cfg env of
             (evs, Proceed room) \<Rightarrow>
               (case join_step env room of (evs', r) \<Rightarrow> (Call Login # evs @ evs', r))
           | (evs, r) \<Rightarrow> (Call Login # evs, r)))"

text \<open>Lines 68 to 101: the \<open>try\<close> with its handler \<open>except Exception\<close>.\<close>

definition setup_try :: "settings \<Rightarrow> setup_env \<Rightarrow> event list \<times> string flow" where
  "setup_try cfg env =
     (case setup_body cfg env of
        (evs, Raise e) \<Rightarrow>
          if is_Exception e then (evs @ [Log LogSetupFailed, Call Close], Return)
          else (evs, Raise e)
      | (evs, r) \<Rightarrow> (evs, r))"

text \<open>
  How a run of \<open>main\<close> stands after the polls the environment has answered: it has
  returned, an exception has left it, or it is still polling.
\<close>

datatype exit = Returned | Propagated exc | Polling

text \<open>Lines 174 to 177, entered with the exception that left the loop.\<close>

definition finally_block :: "setup_env \<Rightarrow> exc \<Rightarrow> event list \<times> exit" where
  "finally_block env e =
     (case logout_res env of
        None \<Rightarrow> ([Log LogClosing, Call Logout, Call Close], Propagated e)
      | Some e' \<Rightarrow> ([Log LogClosing, Call Logout], Propagated e'))"

definition main :: "settings \<Rightarrow> setup_env \<Rightarrow> poll_env list \<Rightarrow> event list \<times> exit" where
  "main cfg env polls =
     (if \<not> config_complete cfg then ([Log LogMissingConfig], Returned)
      else (case setup_try cfg env of
              (evs, Return) \<Rightarrow> (evs, Returned)
            | (evs, Raise e) \<Rightarrow> (evs, Propagated e)
            | (evs, Proceed room) \<Rightarrow>
                (case poll_loop cfg room polls None of
                   (evs', t, None) \<Rightarrow> (evs @ evs', Polling)
                 | (evs', t, Some e) \<Rightarrow>
                     (case finally_block env e of (evs'', x) \<Rightarrow> (evs @ evs' @ evs'', x)))))"

section \<open>What a run shows\<close>

text \<open>
  Readings of the list of events: the calls made to the messaging client, the number of
  times the branch of line 125 was entered (each entry writes one of the two log lines
  of lines 127 and 129), the numbers of \<open>room_send\<close> and of \<open>close\<close> calls.
\<close>

fun is_call :: "event \<Rightarrow> bool" where
  "is_call (Call _) = True"
| "is_call _ = False"

fun is_announce :: "event \<Rightarrow> bool" where
  "is_announce (Log (LogInitialSong _)) = True"
| "is_announce (Log (LogMusicChanged _)) = True"
| "is_announce _ = False"

fun is_send :: "event \<Rightarrow> bool" where
  "is_send (Call (RoomSend _ _)) = True"
| "is_send _ = False"

definition calls :: "event list \<Rightarrow> event list" where
  "calls evs = filter is_call evs"

definition dispatches :: "event list \<Rightarrow> nat" where
  "dispatches evs = length (filter is_announce evs)"

definition sends :: "event list \<Rightarrow> nat" where
  "sends evs = length (filter is_send evs)"

definition closes :: "event list \<Rightarrow> nat" where
  "closes evs = length (filter (\<lambda>ev. ev = Call Close) evs)"

text \<open>
  A complete configuration with both notifications on, an environment in which every
  call of the setup succeeds, and a poll that fetches a given payload with every call
  succeeding: the inputs of the examples.
\<close>

definition demo_settings :: settings where
  "demo_settings =
     \<lparr>matrix_homeserver = ''https://matrix.org'', matrix_user = ''@bot:matrix.org'',
      matrix_password = ''secret'', matrix_room_id = ''!radio:matrix.org'',
      matrix_send_messages = True, matrix_update_topic = True, radio_name = ''Radio'',
      radio_stream_url = ''https://radio.example/stream'',
      radio_api_url = ''https://radio.example/status'', poll_interval = 15\<rparr>"

definition demo_setup :: setup_env where
  "demo_setup =
     \<lparr>login_res = Inr LoginResponse, resolve_res = Inr (RoomResolveAliasResponse ''!r:m''),
      join_res = Inr JoinResponse, logout_res = None\<rparr>"

definition answers :: "pyval \<Rightarrow> poll_env" where
  "answers data =
     \<lparr>fetch_res = Inr data, send_res = Inr RoomSendResponse,
      topic_res = Inr RoomPutStateResponse, sleep_res = None\<rparr>"

definition titled :: "string \<Rightarrow> pyval" where
  "titled t = PDict [(PStr ''title'', PStr t)]"

section \<open>Properties of the normalisation\<close>

lemma key_eq_PStr: "key_eq k (PStr n) = (k = PStr n)"
  by (cases k) (auto simp: key_eq_def)

lemma dict_get_dict_set_PStr:
  "dict_get (dict_set d k v) (PStr n) = (if k = PStr n then Some v else dict_get d (PStr n))"
  by (induction d k v rule: dict_set.induct) (auto simp: key_eq_PStr key_eq_def split: option.splits)

lemma comprehension_skips: "list_all (\<lambda>i. as_pair i = None) items \<Longrightarrow> comprehension items d = Inr d"
  by (induction items arbitrary: d) auto

lemma validate_fields_empty: "validate_fields [] = Inr no_fields"
  by (simp add: validate_fields_def field_names_def get_field_def no_fields_def)

lemma comprehension_append:
  "comprehension (xs @ ys) d =
     (case comprehension xs d of Inl e \<Rightarrow> Inl e | Inr d' \<Rightarrow> comprehension ys d')"
  by (induction xs arbitrary: d) (auto split: option.splits)

lemma comprehension_keeps:
  "\<forall>item \<in> set items. \<forall>v'. as_pair item \<noteq> Some (PStr n, v') \<Longrightarrow> comprehension items d = Inr d'
     \<Longrightarrow> dict_get d' (PStr n) = dict_get d (PStr n)"
proof (induction items arbitrary: d)
  case Nil
  then show ?case by simp
next
  case (Cons item items)
  show ?case
  proof (cases "as_pair item")
    case None
    with Cons show ?thesis by simp
  next
    case (Some kv)
    obtain k v where kv: "kv = (k, v)" by (cases kv)
    from Cons.prems(1) Some kv have ne: "k \<noteq> PStr n" by auto
    from Cons.prems(2) Some kv have h: "hashable k" and c: "comprehension items (dict_set d k v) = Inr d'"
      by (auto split: if_splits)
    from Cons.prems(1) have "\<forall>item \<in> set items. \<forall>v'. as_pair item \<noteq> Some (PStr n, v')" by simp
    from Cons.IH[OF this c] ne show ?thesis by (simp add: dict_get_dict_set_PStr)
  qed
qed

lemma comprehension_last:
  assumes "comprehension (before @ PList [PStr n, v] # after) d0 = Inr d"
    and "\<forall>item \<in> set after. \<forall>v'. as_pair item \<noteq> Some (PStr n, v')"
  shows "get_field d n = Some v"
proof -
  from assms(1) obtain d1 where "comprehension before d0 = Inr d1"
    and c: "comprehension (PList [PStr n, v] # after) d1 = Inr d"
    by (auto simp: comprehension_append split: sum.splits)
  from c have "comprehension after (dict_set d1 (PStr n) v) = Inr d" by simp
  from comprehension_keeps[OF assms(2) this] show ?thesis
    by (simp add: get_field_def dict_get_dict_set_PStr)
qed

lemma comprehension_drop:
  "as_pair item = None \<Longrightarrow> comprehension (xs @ item # ys) d = comprehension (xs @ ys) d"
  by (simp add: comprehension_append split: sum.splits)

lemma str_split_not_Nil: "str_split sep s \<noteq> []"
  by (induction s) (auto split: list.splits)

lemma str_split_single: "(str_split sep s = [[]]) = (s = [])"
  using str_split_not_Nil[of sep "tl s"] by (cases s) (auto split: list.splits)

lemma last_str_split: "(last (str_split sep s) = []) = (s = [] \<or> last s = sep)"
proof (induction s)
  case Nil
  then show ?case by simp
next
  case (Cons c cs)
  then show ?case using str_split_not_Nil[of sep cs] str_split_single[of sep cs]
    by (cases "str_split sep cs") (auto split: list.splits)
qed

lemma str_replace_Nil: "(str_replace a b s = []) = (s = [])"
  by (simp add: str_replace_def)

lemma model_validate_list:
  "model_validate (PList items) =
     (case comprehension items [] of Inl e \<Rightarrow> Inl e | Inr d \<Rightarrow> validate_fields d)"
  by (simp add: model_validate_def parse_list_def split: sum.splits)

text \<open>
  Claim C1, as amended. A list with no item that is a two-element list (the empty list,
  pairs of another length, items that are not lists) validates to the record with every
  field \<open>None\<close>. A payload that is neither a list nor a dict (a number, a string, a
  boolean, \<open>null\<close>) does not: \<open>parse_list\<close> hands it on unchanged and the validation of
  the model raises \<open>ValidationError\<close>.
\<close>

theorem model_validate_malformed:
  "(list_all (\<lambda>item. as_pair item = None) items \<longrightarrow> model_validate (PList items) = Inr no_fields)
   \<and> ((\<forall>xs. data \<noteq> PList xs) \<and> (\<forall>d. data \<noteq> PDict d)
        \<longrightarrow> model_validate data = Inl ValidationError)"
proof (intro conjI impI)
  assume "list_all (\<lambda>item. as_pair item = None) items"
  then show "model_validate (PList items) = Inr no_fields"
    by (simp add: model_validate_list comprehension_skips validate_fields_empty)
next
  assume "(\<forall>xs. data \<noteq> PList xs) \<and> (\<forall>d. data \<noteq> PDict d)"
  then show "model_validate data = Inl ValidationError"
    by (cases data) (simp_all add: model_validate_def parse_list_def)
qed

theorem model_validate_malformed_witness:
  "model_validate (PList []) = Inr no_fields
   \<and> model_validate (PList [PList [PStr ''title''], PStr ''ab'']) = Inr no_fields
   \<and> model_validate (PStr ''x'') = Inl ValidationError"
  using model_validate_malformed [of "[]" "PStr ''x''"]
    model_validate_malformed [of "[PList [PStr ''title''], PStr ''ab'']" PNone]
  by simp

text \<open>
  Claim C1 as stated fails: validating a plain number raises, and so does a pair whose
  first element is a list, inside \<open>parse_list\<close> itself.
\<close>

theorem model_validate_number_raises:
  "model_validate (PInt 42) = Inl ValidationError
   \<and> model_validate (PInt 42) \<noteq> Inr no_fields
   \<and> model_validate (PList [PList [PList [], PInt 1]]) = Inl TypeError"
  by (simp add: model_validate_def parse_list_def)

text \<open>
  Claim C10. In a list payload, the value of the last pair named \<open>name\<close> is the one the
  record gets for the field of that name, whatever pairs of the same name come before;
  and an item that is not a two-element list changes nothing, wherever it stands.
\<close>

theorem parse_list_last_pair_wins:
  assumes "model_validate (PList (before @ PList [PStr name, v] # after)) = Inr st"
    and "\<forall>item \<in> set after. \<forall>v'. as_pair item \<noteq> Some (PStr name, v')"
  shows "(name = ''encoder'' \<longrightarrow> encoder st = field_value (Some v))
       \<and> (name = ''filename'' \<longrightarrow> filename st = field_value (Some v))
       \<and> (name = ''initial_uri'' \<longrightarrow> initial_uri st = field_value (Some v))
       \<and> (name = ''language'' \<longrightarrow> language st = field_value (Some v))
       \<and> (name = ''rid'' \<longrightarrow> rid st = field_value (Some v))
       \<and> (name = ''status'' \<longrightarrow> status st = field_value (Some v))
       \<and> (name = ''temporary'' \<longrightarrow> temporary st = field_value (Some v))
       \<and> (name = ''title'' \<longrightarrow> title st = field_value (Some v))
       \<and> (name = ''vendor'' \<longrightarrow> vendor st = field_value (Some v))
       \<and> (as_pair item = None \<longrightarrow>
            model_validate (PList (xs @ item # ys)) = model_validate (PList (xs @ ys)))"
proof -
  from assms(1) obtain d
    where c: "comprehension (before @ PList [PStr name, v] # after) [] = Inr d"
      and f: "validate_fields d = Inr st"
    by (auto simp: model_validate_list split: sum.splits)
  have g: "get_field d name = Some v"
    using comprehension_last [OF c assms(2)] .
  from f have st: "st =
      \<lparr>encoder = field_value (get_field d ''encoder''),
       filename = field_value (get_field d ''filename''),
       initial_uri = field_value (get_field d ''initial_uri''),
       language = field_value (get_field d ''language''),
       rid = field_value (get_field d ''rid''),
       status = field_value (get_field d ''status''),
       temporary = field_value (get_field d ''temporary''),
       title = field_value (get_field d ''title''),
       vendor = field_value (get_field d ''vendor'')\<rparr>"
    by (auto simp: validate_fields_def split: if_splits)
  have skip: "as_pair item = None \<longrightarrow>
      model_validate (PList (xs @ item # ys)) = model_validate (PList (xs @ ys))"
    by (simp add: model_validate_list comprehension_drop)
  have fields: "name = n \<longrightarrow> field_value (get_field d n) = field_value (Some v)" for n
    using g by auto
  from fields skip show ?thesis
    unfolding st by simp
qed

theorem parse_list_last_pair_wins_witness:
  "model_validate (PList [PList [PStr ''title'', PStr ''A''], PList [PStr ''title'', PStr ''B''],
       PList [PStr ''vendor'', PNone]])
     = Inr (no_fields\<lparr>title := Some ''B''\<rparr>)
   \<and> title (no_fields\<lparr>title := Some ''B''\<rparr>) = field_value (Some (PStr ''B''))
   \<and> as_pair (PStr ''ab'') = None
   \<and> model_validate (PList [PStr ''ab'', PList [PStr ''title'', PStr ''B'']])
       = model_validate (PList [PList [PStr ''title'', PStr ''B'']])"
proof -
  have v: "model_validate (PList ([PList [PStr ''title'', PStr ''A'']]
             @ PList [PStr ''title'', PStr ''B''] # [PList [PStr ''vendor'', PNone]]))
           = Inr (no_fields\<lparr>title := Some ''B''\<rparr>)"
    by (simp add: model_validate_list validate_fields_def field_names_def get_field_def
        key_eq_def no_fields_def)
  have a: "\<forall>item \<in> set [PList [PStr ''vendor'', PNone]].
             \<forall>v'. as_pair item \<noteq> Some (PStr ''title'', v')"
    by simp
  from parse_list_last_pair_wins [OF v a, of "PStr ''ab''" "[]"
      "[PList [PStr ''title'', PStr ''B'']]"] v
  show ?thesis by simp
qed

section \<open>Properties of the display title\<close>

text \<open>
  Claim C6, as amended. A title that is a non-empty string is the display title,
  unchanged; an empty title counts as absent, as the source tests its truth value.
  Without a title, a non-empty filename gives its last path segment with underscores
  turned into spaces, \<open>My Song.mp3\<close> for \<open>/mnt/music/My_Song.mp3\<close>. With neither
  a title nor a filename (absent or empty), the display title is \<open>Unknown Song\<close>.
\<close>

theorem display_title_derivation:
  "(title st = Some t \<and> t \<noteq> [] \<longrightarrow> display_title st = t)
   \<and> (\<not> truthy (title st) \<and> filename st = Some f \<and> f \<noteq> [] \<longrightarrow>
        display_title st = str_replace (CHR ''_'') (CHR '' '') (last (str_split (CHR ''/'') f)))
   \<and> (\<not> truthy (title st) \<and> \<not> truthy (filename st) \<longrightarrow> display_title st = ''Unknown Song'')
   \<and> str_replace (CHR ''_'') (CHR '' '') (last (str_split (CHR ''/'') ''/mnt/music/My_Song.mp3''))
       = ''My Song.mp3''"
  by (auto simp: display_title_def filename_title_def str_replace_def split: option.splits)

theorem display_title_derivation_witness:
  "display_title (no_fields\<lparr>title := Some ''Song A''\<rparr>) = ''Song A''
   \<and> display_title (no_fields\<lparr>filename := Some ''/mnt/music/My_Song.mp3''\<rparr>) = ''My Song.mp3''
   \<and> display_title no_fields = ''Unknown Song''"
  using display_title_derivation [of "no_fields\<lparr>title := Some ''Song A''\<rparr>" "''Song A''" "[]"]
    display_title_derivation [of "no_fields\<lparr>filename := Some ''/mnt/music/My_Song.mp3''\<rparr>"
      "[]" "''/mnt/music/My_Song.mp3''"]
    display_title_derivation [of no_fields "[]" "[]"]
  by (simp add: no_fields_def)

text \<open>
  Claim C6 as stated fails on a title that is present and empty: it is not returned
  unchanged, the placeholder is.
\<close>

theorem display_title_empty_title_example:
  "display_title (no_fields\<lparr>title := Some []\<rparr>) = ''Unknown Song''
   \<and> display_title (no_fields\<lparr>title := Some []\<rparr>) \<noteq> []"
  by (simp add: display_title_def filename_title_def no_fields_def)

text \<open>
  Claim C2, as amended. The display title is empty in one case only: no title (absent
  or empty) and a non-empty filename that ends in \<open>/\<close>, whose last path segment is empty.
  For every other record it is a non-empty string.
\<close>

theorem display_title_empty_iff:
  "(display_title st = []) =
     (\<not> truthy (title st) \<and> (\<exists>f. filename st = Some f \<and> f \<noteq> [] \<and> last f = CHR ''/''))"
  by (auto simp: display_title_def filename_title_def str_replace_Nil last_str_split split: option.splits)

text \<open>Claim C2 as stated fails on a filename that ends in a slash.\<close>

theorem display_title_empty_example:
  "display_title (no_fields\<lparr>filename := Some ''/mnt/music/''\<rparr>) = []"
  by (simp add: display_title_def filename_title_def no_fields_def str_replace_def)

section \<open>Properties of the poll loop\<close>

lemma send_step_returns:
  "send_res env = Inr rs \<Longrightarrow> snd (send_step cfg room env t) = None
     \<and> filter is_announce (fst (send_step cfg room env t)) = []
     \<and> filter (\<lambda>ev. ev = Call Close) (fst (send_step cfg room env t)) = []"
  by (simp add: send_step_def)

lemma topic_step_returns:
  "topic_res env = Inr rt \<Longrightarrow> snd (topic_step cfg room env t) = None
     \<and> filter is_announce (fst (topic_step cfg room env t)) = []"
  by (simp add: topic_step_def)

lemma step_no_close:
  "filter (\<lambda>ev. ev = Call Close) (fst (send_step cfg room env t)) = []"
  "filter (\<lambda>ev. ev = Call Close) (fst (topic_step cfg room env t)) = []"
  by (auto simp: send_step_def topic_step_def split: sum.splits)

lemma step_one_announce:
  "filter is_announce (fst (send_step cfg room env t)) = []"
  "filter is_announce (fst (topic_step cfg room env t)) = []"
  by (auto simp: send_step_def topic_step_def split: sum.splits)

lemma dispatch_returns:
  assumes "send_res env = Inr rs" and "topic_res env = Inr rt"
  shows "dispatch cfg room env t cur =
     (Log (if cur \<noteq> None then LogMusicChanged t else LogInitialSong t)
        # fst (send_step cfg room env t) @ fst (topic_step cfg room env t), Some t, None)"
proof -
  obtain sent where s: "send_step cfg room env t = (sent, None)"
    using send_step_returns [OF assms(1), of cfg room t]
    by (cases "send_step cfg room env t") simp
  obtain put where p: "topic_step cfg room env t = (put, None)"
    using topic_step_returns [OF assms(2), of cfg room t]
    by (cases "topic_step cfg room env t") simp
  show ?thesis by (simp add: dispatch_def s p)
qed

lemma dispatch_cases:
  obtains evs e where "dispatch cfg room env t cur =
      (Log (if cur \<noteq> None then LogMusicChanged t else LogInitialSong t) # evs, cur, Some e)"
      "filter is_announce evs = []" "filter (\<lambda>ev. ev = Call Close) evs = []"
  | evs where "dispatch cfg room env t cur =
      (Log (if cur \<noteq> None then LogMusicChanged t else LogInitialSong t) # evs, Some t, None)"
      "filter is_announce evs = []" "filter (\<lambda>ev. ev = Call Close) evs = []"
proof -
  obtain sent r1 where s: "send_step cfg room env t = (sent, r1)"
    by (cases "send_step cfg room env t")
  obtain put r2 where p: "topic_step cfg room env t = (put, r2)"
    by (cases "topic_step cfg room env t")
  from s p step_no_close [of cfg room env t] step_one_announce [of cfg room env t]
  have n: "filter is_announce sent = []" "filter is_announce put = []"
    "filter (\<lambda>ev. ev = Call Close) sent = []" "filter (\<lambda>ev. ev = Call Close) put = []"
    by simp_all
  show thesis
  proof (cases r1)
    case (Some e)
    with s n that(1) [of sent e] show thesis by (simp add: dispatch_def)
  next
    case None
    show thesis
    proof (cases r2)
      case (Some e)
      with None s p n that(1) [of "sent @ put" e] show thesis by (simp add: dispatch_def)
    next
      case N2: None
      with None s p n that(2) [of "sent @ put"] show thesis by (simp add: dispatch_def)
    qed
  qed
qed

lemma dispatch_title:
  "fst (snd (dispatch cfg room env t cur)) = cur \<or> fst (snd (dispatch cfg room env t cur)) = Some t"
  by (rule dispatch_cases [of cfg room env t cur]) simp_all

lemma dispatch_events:
  "filter (\<lambda>ev. ev = Call Close) (fst (dispatch cfg room env t cur)) = []"
  "length (filter is_announce (fst (dispatch cfg room env t cur))) = 1"
  by (rule dispatch_cases [of cfg room env t cur]; simp)+

lemma should_notify_iff: "should_notify c p = (c \<noteq> [] \<and> p \<noteq> Some c)"
  by (cases p) (auto simp: should_notify_def)

lemma poll_body_failure:
  "fetch_res env = Inl e \<or> (\<exists>data. fetch_res env = Inr data \<and> model_validate data = Inl e)
     \<Longrightarrow> poll_body cfg room env cur = ([Get (radio_api_url cfg)], cur, Some e)"
  by (auto simp: poll_body_def)

lemma poll_body_same:
  "fetch_res env = Inr data \<Longrightarrow> model_validate data = Inr st
     \<Longrightarrow> \<not> should_notify (display_title st) cur
     \<Longrightarrow> poll_body cfg room env cur = ([Get (radio_api_url cfg)], cur, None)"
  by (simp add: poll_body_def)

lemma poll_body_changed:
  "fetch_res env = Inr data \<Longrightarrow> model_validate data = Inr st
     \<Longrightarrow> should_notify (display_title st) cur
     \<Longrightarrow> poll_body cfg room env cur =
          (Get (radio_api_url cfg) # fst (dispatch cfg room env (display_title st) cur),
           snd (dispatch cfg room env (display_title st) cur))"
  by (simp add: poll_body_def split: prod.splits)


lemma poll_iteration_failure:
  assumes "fetch_res env = Inl e \<or> (\<exists>data. fetch_res env = Inr data \<and> model_validate data = Inl e)"
  shows "poll_iteration cfg room env cur =
     (if e = HTTPError
      then ([Get (radio_api_url cfg), Log LogHttpWarning, Sleep (poll_interval cfg)], cur, sleep_res env)
      else if is_Exception e
      then ([Get (radio_api_url cfg), Log LogUnexpected, Sleep (poll_interval cfg)], cur, sleep_res env)
      else ([Get (radio_api_url cfg)], cur, Some e))"
  by (simp add: poll_iteration_def handlers_def poll_body_failure [OF assms])

lemma poll_iteration_same:
  assumes "fetch_res env = Inr data" and "model_validate data = Inr st"
    and "\<not> should_notify (display_title st) cur"
  shows "poll_iteration cfg room env cur =
     ([Get (radio_api_url cfg), Sleep (poll_interval cfg)], cur, sleep_res env)"
  by (simp add: poll_iteration_def handlers_def poll_body_same [OF assms])

lemma poll_iteration_changed:
  assumes "fetch_res env = Inr data" and "model_validate data = Inr st"
    and "should_notify (display_title st) cur"
    and "send_res env = Inr rs" and "topic_res env = Inr rt"
  shows "poll_iteration cfg room env cur =
     (Get (radio_api_url cfg)
        # Log (if cur \<noteq> None then LogMusicChanged (display_title st)
               else LogInitialSong (display_title st))
        # fst (send_step cfg room env (display_title st))
        @ fst (topic_step cfg room env (display_title st)) @ [Sleep (poll_interval cfg)],
      Some (display_title st), sleep_res env)"
  by (simp add: poll_iteration_def handlers_def poll_body_changed [OF assms(1-3)]
      dispatch_returns [OF assms(4,5)])

lemma poll_iteration_of_body:
  "fst (snd (poll_iteration cfg room env cur)) = fst (snd (poll_body cfg room env cur))"
  "filter is_announce (fst (poll_iteration cfg room env cur))
     = filter is_announce (fst (poll_body cfg room env cur))"
  "filter (\<lambda>ev. ev = Call Close) (fst (poll_iteration cfg room env cur))
     = filter (\<lambda>ev. ev = Call Close) (fst (poll_body cfg room env cur))"
proof -
  obtain evs t r where b: "poll_body cfg room env cur = (evs, t, r)"
    by (cases "poll_body cfg room env cur")
  show "fst (snd (poll_iteration cfg room env cur)) = fst (snd (poll_body cfg room env cur))"
    by (cases r) (simp_all add: poll_iteration_def handlers_def b)
  show "filter is_announce (fst (poll_iteration cfg room env cur))
     = filter is_announce (fst (poll_body cfg room env cur))"
    by (cases r) (simp_all add: poll_iteration_def handlers_def b)
  show "filter (\<lambda>ev. ev = Call Close) (fst (poll_iteration cfg room env cur))
     = filter (\<lambda>ev. ev = Call Close) (fst (poll_body cfg room env cur))"
    by (cases r) (simp_all add: poll_iteration_def handlers_def b)
qed

lemma poll_body_title:
  "fst (snd (poll_body cfg room env cur)) = cur
     \<or> (\<exists>s. s \<noteq> [] \<and> fst (snd (poll_body cfg room env cur)) = Some s)"
proof (cases "fetch_res env")
  case (Inl e)
  then show ?thesis by (simp add: poll_body_failure)
next
  case (Inr data)
  show ?thesis
  proof (cases "model_validate data")
    case (Inl e)
    with Inr show ?thesis by (simp add: poll_body_failure)
  next
    case st: (Inr st)
    show ?thesis
    proof (cases "should_notify (display_title st) cur")
      case False
      with Inr st show ?thesis by (simp add: poll_body_same)
    next
      case True
      then have "display_title st \<noteq> []" by (simp add: should_notify_iff)
      with dispatch_title [of cfg room env "display_title st" cur] show ?thesis
        by (auto simp: poll_body_changed [OF Inr st True])
    qed
  qed
qed

lemma poll_body_no_close:
  "filter (\<lambda>ev. ev = Call Close) (fst (poll_body cfg room env cur)) = []"
proof (cases "fetch_res env")
  case (Inl e)
  then show ?thesis by (simp add: poll_body_failure)
next
  case (Inr data)
  show ?thesis
  proof (cases "model_validate data")
    case (Inl e)
    with Inr show ?thesis by (simp add: poll_body_failure)
  next
    case st: (Inr st)
    show ?thesis
    proof (cases "should_notify (display_title st) cur")
      case False
      with Inr st show ?thesis by (simp add: poll_body_same)
    next
      case True
      show ?thesis
        by (simp add: poll_body_changed [OF Inr st True] dispatch_events(1))
    qed
  qed
qed

lemma poll_iteration_title:
  "fst (snd (poll_iteration cfg room env cur)) = cur
     \<or> (\<exists>s. s \<noteq> [] \<and> fst (snd (poll_iteration cfg room env cur)) = Some s)"
  using poll_body_title [of cfg room env cur] by (simp add: poll_iteration_of_body)

lemma poll_loop_step:
  "poll_loop cfg room (env # envs) cur =
     (case snd (snd (poll_iteration cfg room env cur)) of
        Some e \<Rightarrow> poll_iteration cfg room env cur
      | None \<Rightarrow>
          (fst (poll_iteration cfg room env cur)
             @ fst (poll_loop cfg room envs (fst (snd (poll_iteration cfg room env cur)))),
           snd (poll_loop cfg room envs (fst (snd (poll_iteration cfg room env cur))))))"
  by (cases "poll_iteration cfg room env cur") (auto split: option.splits prod.splits)

lemma poll_loop_title:
  "(truthy cur \<longrightarrow> truthy (fst (snd (poll_loop cfg room envs cur))))
   \<and> (cur = None \<longrightarrow> fst (snd (poll_loop cfg room envs cur)) = None
        \<or> truthy (fst (snd (poll_loop cfg room envs cur))))"
proof (induction envs arbitrary: cur)
  case Nil
  then show ?case by simp
next
  case (Cons env envs)
  let ?t = "fst (snd (poll_iteration cfg room env cur))"
  have t: "?t = cur \<or> (\<exists>s. s \<noteq> [] \<and> ?t = Some s)"
    by (rule poll_iteration_title)
  show ?case
  proof (cases "snd (snd (poll_iteration cfg room env cur))")
    case (Some e)
    with t show ?thesis by (auto simp: poll_loop_step simp del: poll_loop.simps)
  next
    case None
    from Cons.IH [of ?t] t None show ?thesis
      by (cases cur) (auto simp: poll_loop_step simp del: poll_loop.simps)
  qed
qed

lemma poll_loop_no_close:
  "filter (\<lambda>ev. ev = Call Close) (fst (poll_loop cfg room envs cur)) = []"
proof (induction envs arbitrary: cur)
  case Nil
  then show ?case by simp
next
  case (Cons env envs)
  have "filter (\<lambda>ev. ev = Call Close) (fst (poll_iteration cfg room env cur)) = []"
    by (simp add: poll_iteration_of_body poll_body_no_close)
  with Cons show ?case
    by (cases "snd (snd (poll_iteration cfg room env cur))")
      (simp_all add: poll_loop_step del: poll_loop.simps)
qed


lemma poll_loop_quiet:
  assumes "\<forall>env \<in> set envs. fetch_res env = Inr data"
    and "(\<exists>e. model_validate data = Inl e)
         \<or> (\<exists>st. model_validate data = Inr st \<and> \<not> should_notify (display_title st) cur)"
  shows "filter is_announce (fst (poll_loop cfg room envs cur)) = []
       \<and> filter is_call (fst (poll_loop cfg room envs cur)) = []
       \<and> fst (snd (poll_loop cfg room envs cur)) = cur"
  using assms(1)
proof (induction envs)
  case Nil
  then show ?case by simp
next
  case (Cons env envs)
  then have f: "fetch_res env = Inr data" by simp
  from assms(2) have it: "filter is_announce (fst (poll_iteration cfg room env cur)) = []
      \<and> filter is_call (fst (poll_iteration cfg room env cur)) = []
      \<and> fst (snd (poll_iteration cfg room env cur)) = cur"
  proof
    assume "\<exists>e. model_validate data = Inl e"
    then obtain e where "model_validate data = Inl e" ..
    with f have "fetch_res env = Inl e \<or> (\<exists>data. fetch_res env = Inr data \<and> model_validate data = Inl e)"
      by simp
    from poll_iteration_failure [OF this] show ?thesis by simp
  next
    assume "\<exists>st. model_validate data = Inr st \<and> \<not> should_notify (display_title st) cur"
    then obtain st where "model_validate data = Inr st" "\<not> should_notify (display_title st) cur"
      by auto
    from poll_iteration_same [OF f this] show ?thesis by simp
  qed
  from Cons have "filter is_announce (fst (poll_loop cfg room envs cur)) = []
       \<and> filter is_call (fst (poll_loop cfg room envs cur)) = []
       \<and> fst (snd (poll_loop cfg room envs cur)) = cur" by simp
  with it show ?case
    by (cases "snd (snd (poll_iteration cfg room env cur))")
      (simp_all add: poll_loop_step del: poll_loop.simps)
qed

lemma is_send_is_call: "filter is_call evs = [] \<Longrightarrow> filter is_send evs = []"
proof (induction evs)
  case Nil
  then show ?case by simp
next
  case (Cons ev evs)
  then show ?case by (cases ev rule: is_send.cases) (auto split: if_splits)
qed

lemma step_sends:
  "send_res env = Inr rs \<Longrightarrow>
     length (filter is_send (fst (send_step cfg room env t))) = (if matrix_send_messages cfg then 1 else 0)"
  "filter is_send (fst (topic_step cfg room env t)) = []"
  by (auto simp: send_step_def topic_step_def split: sum.splits)

text \<open>
  Claim C8, as amended. Take at least one poll, starting with no title recorded, every
  fetch returning the same payload and every call of the messaging client returning a
  response. Then the branch that notifies is entered exactly once when the payload
  validates and its display title is not empty, and never otherwise; with messages
  switched on, \<open>room_send\<close> is called as many times.
\<close>

theorem identical_polls_dispatch:
  assumes "envs \<noteq> []"
    and "\<forall>env \<in> set envs. fetch_res env = Inr data
           \<and> (\<exists>rs. send_res env = Inr rs) \<and> (\<exists>rt. topic_res env = Inr rt)"
  shows "dispatches (fst (poll_loop cfg room envs None))
           = (case model_validate data of
                Inl e \<Rightarrow> 0
              | Inr st \<Rightarrow> if display_title st = [] then 0 else 1)
       \<and> sends (fst (poll_loop cfg room envs None))
           = (case model_validate data of
                Inl e \<Rightarrow> 0
              | Inr st \<Rightarrow> if display_title st = [] \<or> \<not> matrix_send_messages cfg then 0 else 1)"
proof -
  from assms(2) have all: "\<forall>env \<in> set envs. fetch_res env = Inr data" by simp
  show ?thesis
  proof (cases "model_validate data")
    case (Inl e)
    then have "(\<exists>e. model_validate data = Inl e)
         \<or> (\<exists>st. model_validate data = Inr st \<and> \<not> should_notify (display_title st) None)"
      by simp
    from poll_loop_quiet [OF all this, of cfg room] Inl show ?thesis
      by (simp add: dispatches_def sends_def is_send_is_call)
  next
    case (Inr st)
    show ?thesis
    proof (cases "display_title st = []")
      case True
      with Inr have "(\<exists>e. model_validate data = Inl e)
         \<or> (\<exists>st. model_validate data = Inr st \<and> \<not> should_notify (display_title st) None)"
        by (simp add: should_notify_iff)
      from poll_loop_quiet [OF all this, of cfg room] Inr True show ?thesis
        by (simp add: dispatches_def sends_def is_send_is_call)
    next
      case False
      from assms(1) obtain env rest where envs: "envs = env # rest" by (cases envs) auto
      with assms(2) obtain rs rt where f: "fetch_res env = Inr data"
        and rs: "send_res env = Inr rs" and rt: "topic_res env = Inr rt" by auto
      from False have n: "should_notify (display_title st) None" by (simp add: should_notify_iff)
      note it = poll_iteration_changed [OF f Inr n rs rt, of cfg room]
      from all envs have rest: "\<forall>env \<in> set rest. fetch_res env = Inr data" by simp
      from Inr have "(\<exists>e. model_validate data = Inl e)
         \<or> (\<exists>st'. model_validate data = Inr st'
               \<and> \<not> should_notify (display_title st') (Some (display_title st)))"
        by (simp add: should_notify_iff)
      note q = poll_loop_quiet [OF rest this, of cfg room]
      from q have qs: "filter is_send (fst (poll_loop cfg room rest (Some (display_title st)))) = []"
        by (simp add: is_send_is_call)
      from it q qs Inr False step_one_announce [of cfg room env "display_title st"]
        step_sends(1) [OF rs, of cfg room "display_title st"]
        step_sends(2) [of cfg room env "display_title st"]
      show ?thesis
        by (cases "sleep_res env")
          (simp_all add: envs poll_loop_step dispatches_def sends_def del: poll_loop.simps)
    qed
  qed
qed


theorem identical_polls_dispatch_witness:
  "dispatches (fst (poll_loop demo_settings ''!radio:matrix.org''
      [answers (titled ''Track 1''), answers (titled ''Track 1''), answers (titled ''Track 1'')]
      None)) = 1
   \<and> sends (fst (poll_loop demo_settings ''!radio:matrix.org''
      [answers (titled ''Track 1''), answers (titled ''Track 1''), answers (titled ''Track 1'')]
      None)) = 1"
proof -
  have v: "model_validate (titled ''Track 1'') = Inr (no_fields\<lparr>title := Some ''Track 1''\<rparr>)"
    by (simp add: titled_def model_validate_def parse_list_def validate_fields_def
        field_names_def get_field_def key_eq_def no_fields_def)
  have d: "display_title (no_fields\<lparr>title := Some ''Track 1''\<rparr>) = ''Track 1''"
    by (simp add: display_title_def filename_title_def no_fields_def)
  have ne: "[answers (titled ''Track 1''), answers (titled ''Track 1''),
             answers (titled ''Track 1'')] \<noteq> []" by simp
  have a: "\<forall>env \<in> set [answers (titled ''Track 1''), answers (titled ''Track 1''),
             answers (titled ''Track 1'')].
           fetch_res env = Inr (titled ''Track 1'')
           \<and> (\<exists>rs. send_res env = Inr rs) \<and> (\<exists>rt. topic_res env = Inr rt)"
    by (simp add: answers_def)
  from identical_polls_dispatch [OF ne a, of demo_settings "''!radio:matrix.org''"]
  show ?thesis by (simp add: v d demo_settings_def)
qed

text \<open>
  Claim C8 as stated fails: three polls that all return the number 42 notify nothing.
\<close>

theorem identical_polls_no_dispatch:
  "dispatches (fst (poll_loop demo_settings ''!radio:matrix.org''
      [answers (PInt 42), answers (PInt 42), answers (PInt 42)] None)) = 0"
proof -
  have v: "model_validate (PInt 42) = Inl ValidationError"
    by (simp add: model_validate_def parse_list_def)
  have a: "\<forall>env \<in> set [answers (PInt 42), answers (PInt 42), answers (PInt 42)].
             fetch_res env = Inr (PInt 42)" by (simp add: answers_def)
  have "(\<exists>e. model_validate (PInt 42) = Inl e)
         \<or> (\<exists>st. model_validate (PInt 42) = Inr st \<and> \<not> should_notify (display_title st) None)"
    using v by simp
  from poll_loop_quiet [OF a this] show ?thesis by (simp add: dispatches_def)
qed

text \<open>
  Claim C5. An iteration that has fetched and validated a payload enters the branch that
  notifies exactly when the candidate title is not empty and differs from the stored
  one. The decision is true on the first poll (nothing stored) for any non-empty
  candidate and false when the candidate is the stored title. What was stored before
  changes the first log line only, initial song or music changed: the calls that follow,
  the outcome and the new stored title are the same.
\<close>

theorem should_notify_decision:
  assumes "fetch_res env = Inr data" and "model_validate data = Inr st"
  shows "dispatches (fst (poll_iteration cfg room env previous))
           = (if display_title st \<noteq> [] \<and> previous \<noteq> Some (display_title st) then 1 else 0)
       \<and> should_notify candidate previous = (candidate \<noteq> [] \<and> previous \<noteq> Some candidate)
       \<and> should_notify candidate None = (candidate \<noteq> [])
       \<and> \<not> should_notify candidate (Some candidate)
       \<and> hd (fst (dispatch cfg room env candidate previous))
           = Log (if previous = None then LogInitialSong candidate else LogMusicChanged candidate)
       \<and> tl (fst (dispatch cfg room env candidate previous))
           = tl (fst (dispatch cfg room env candidate None))
       \<and> snd (snd (dispatch cfg room env candidate previous))
           = snd (snd (dispatch cfg room env candidate None))
       \<and> fst (snd (dispatch cfg room env candidate previous))
           = (if snd (snd (dispatch cfg room env candidate previous)) = None
              then Some candidate else previous)"
proof -
  have count: "dispatches (fst (poll_iteration cfg room env previous))
           = (if display_title st \<noteq> [] \<and> previous \<noteq> Some (display_title st) then 1 else 0)"
  proof (cases "should_notify (display_title st) previous")
    case True
    with dispatch_events(2) [of cfg room env "display_title st" previous] show ?thesis
      by (simp add: dispatches_def poll_iteration_of_body poll_body_changed [OF assms True]
          should_notify_iff)
  next
    case False
    then show ?thesis
      by (simp add: dispatches_def poll_iteration_same [OF assms False] should_notify_iff)
  qed
  obtain sent r1 where s: "send_step cfg room env candidate = (sent, r1)"
    by (cases "send_step cfg room env candidate")
  obtain put r2 where p: "topic_step cfg room env candidate = (put, r2)"
    by (cases "topic_step cfg room env candidate")
  have wording: "hd (fst (dispatch cfg room env candidate previous))
           = Log (if previous = None then LogInitialSong candidate else LogMusicChanged candidate)
       \<and> tl (fst (dispatch cfg room env candidate previous))
           = tl (fst (dispatch cfg room env candidate None))
       \<and> snd (snd (dispatch cfg room env candidate previous))
           = snd (snd (dispatch cfg room env candidate None))
       \<and> fst (snd (dispatch cfg room env candidate previous))
           = (if snd (snd (dispatch cfg room env candidate previous)) = None
              then Some candidate else previous)"
    by (cases r1; cases r2) (simp_all add: dispatch_def s p)
  from count wording show ?thesis
    by (simp add: should_notify_iff)
qed

theorem should_notify_decision_witness:
  "dispatches (fst (poll_iteration demo_settings ''!radio:matrix.org''
      (answers (titled ''Track 1'')) None)) = 1
   \<and> dispatches (fst (poll_iteration demo_settings ''!radio:matrix.org''
      (answers (titled ''Track 1'')) (Some ''Track 1''))) = 0
   \<and> dispatches (fst (poll_iteration demo_settings ''!radio:matrix.org''
      (answers (titled ''Track 1'')) (Some ''Track 0''))) = 1"
proof -
  have f: "fetch_res (answers (titled ''Track 1'')) = Inr (titled ''Track 1'')"
    by (simp add: answers_def)
  have v: "model_validate (titled ''Track 1'') = Inr (no_fields\<lparr>title := Some ''Track 1''\<rparr>)"
    by (simp add: titled_def model_validate_def parse_list_def validate_fields_def
        field_names_def get_field_def key_eq_def no_fields_def)
  have d: "display_title (no_fields\<lparr>title := Some ''Track 1''\<rparr>) = ''Track 1''"
    by (simp add: display_title_def filename_title_def no_fields_def)
  from should_notify_decision [OF f v, of demo_settings "''!radio:matrix.org''" None]
    should_notify_decision [OF f v, of demo_settings "''!radio:matrix.org''" "Some ''Track 1''"]
    should_notify_decision [OF f v, of demo_settings "''!radio:matrix.org''" "Some ''Track 0''"]
  show ?thesis by (simp add: d)
qed


lemma model_validate_titled:
  "model_validate (titled t) = Inr (no_fields\<lparr>title := Some t\<rparr>)"
  by (simp add: titled_def model_validate_def parse_list_def validate_fields_def
      field_names_def get_field_def key_eq_def no_fields_def)

lemma display_title_titled:
  "t \<noteq> [] \<Longrightarrow> display_title (no_fields\<lparr>title := Some t\<rparr>) = t"
  by (simp add: display_title_def filename_title_def no_fields_def)

text \<open>
  Claim C3, as amended. When an iteration detects a change and the two calls return,
  with a success or with an error response (\<open>RoomSendError\<close>, a response with a
  \<open>message\<close>) and whichever of the two is switched on, \<open>current_title\<close> becomes the
  new display title and the branch was entered once. The next poll that yields the same
  display title does nothing but fetch and sleep.
\<close>

theorem send_failure_advances_title:
  assumes "fetch_res env = Inr data" and "model_validate data = Inr st"
    and "should_notify (display_title st) current_title"
    and "send_res env = Inr rs" and "topic_res env = Inr rt"
  shows "fst (snd (poll_iteration cfg room env current_title)) = Some (display_title st)
       \<and> dispatches (fst (poll_iteration cfg room env current_title)) = 1
       \<and> (fetch_res env' = Inr data' \<and> model_validate data' = Inr st'
            \<and> display_title st' = display_title st \<longrightarrow>
          poll_iteration cfg room env' (fst (snd (poll_iteration cfg room env current_title)))
            = ([Get (radio_api_url cfg), Sleep (poll_interval cfg)], Some (display_title st),
               sleep_res env'))"
proof -
  note it = poll_iteration_changed [OF assms, of cfg room]
  have one: "dispatches (fst (poll_iteration cfg room env current_title)) = 1"
    using step_one_announce [of cfg room env "display_title st"]
    by (simp add: it dispatches_def)
  have next_poll: "poll_iteration cfg room env' (Some (display_title st))
            = ([Get (radio_api_url cfg), Sleep (poll_interval cfg)], Some (display_title st),
               sleep_res env')"
    if "fetch_res env' = Inr data'" "model_validate data' = Inr st'"
      "display_title st' = display_title st"
  proof -
    from that(3) have "\<not> should_notify (display_title st') (Some (display_title st))"
      by (simp add: should_notify_iff)
    from poll_iteration_same [OF that(1,2) this] show ?thesis .
  qed
  from one next_poll show ?thesis by (simp add: it)
qed

theorem send_failure_advances_title_witness:
  "fst (snd (poll_iteration demo_settings ''!radio:matrix.org''
       ((answers (titled ''Track 2''))\<lparr>send_res := Inr RoomSendError,
          topic_res := Inr RoomPutStateError\<rparr>) (Some ''Track 1''))) = Some ''Track 2''
   \<and> poll_iteration demo_settings ''!radio:matrix.org'' (answers (titled ''Track 2''))
       (fst (snd (poll_iteration demo_settings ''!radio:matrix.org''
          ((answers (titled ''Track 2''))\<lparr>send_res := Inr RoomSendError,
             topic_res := Inr RoomPutStateError\<rparr>) (Some ''Track 1''))))
       = ([Get ''https://radio.example/status'', Sleep 15], Some ''Track 2'', None)"
proof -
  let ?env = "(answers (titled ''Track 2''))\<lparr>send_res := Inr RoomSendError,
                topic_res := Inr RoomPutStateError\<rparr>"
  have f: "fetch_res ?env = Inr (titled ''Track 2'')" by (simp add: answers_def)
  have n: "should_notify (display_title (no_fields\<lparr>title := Some ''Track 2''\<rparr>)) (Some ''Track 1'')"
    by (simp add: display_title_titled should_notify_iff)
  have s: "send_res ?env = Inr RoomSendError" by (simp add: answers_def)
  have t: "topic_res ?env = Inr RoomPutStateError" by (simp add: answers_def)
  have pre: "fetch_res (answers (titled ''Track 2'')) = Inr (titled ''Track 2'')
      \<and> model_validate (titled ''Track 2'') = Inr (no_fields\<lparr>title := Some ''Track 2''\<rparr>)
      \<and> display_title (no_fields\<lparr>title := Some ''Track 2''\<rparr>)
          = display_title (no_fields\<lparr>title := Some ''Track 2''\<rparr>)"
    by (simp add: answers_def model_validate_titled)
  note th = send_failure_advances_title [OF f model_validate_titled n s t,
      of demo_settings "''!radio:matrix.org''" "answers (titled ''Track 2'')"
        "titled ''Track 2''" "no_fields\<lparr>title := Some ''Track 2''\<rparr>"]
  from th have a: "fst (snd (poll_iteration demo_settings ''!radio:matrix.org'' ?env
      (Some ''Track 1''))) = Some ''Track 2''"
    by (simp add: display_title_titled)
  from th pre have "poll_iteration demo_settings ''!radio:matrix.org''
      (answers (titled ''Track 2''))
      (fst (snd (poll_iteration demo_settings ''!radio:matrix.org'' ?env (Some ''Track 1''))))
    = ([Get (radio_api_url demo_settings), Sleep (poll_interval demo_settings)],
       Some (display_title (no_fields\<lparr>title := Some ''Track 2''\<rparr>)),
       sleep_res (answers (titled ''Track 2'')))"
    by blast
  then have b: "poll_iteration demo_settings ''!radio:matrix.org''
      (answers (titled ''Track 2''))
      (fst (snd (poll_iteration demo_settings ''!radio:matrix.org'' ?env (Some ''Track 1''))))
    = ([Get ''https://radio.example/status'', Sleep 15], Some ''Track 2'', None)"
    by (simp add: display_title_titled answers_def demo_settings_def)
  from a b show ?thesis by simp
qed

text \<open>
  An exception raised by \<open>room_send\<close> leaves the branch before line 164: the title is
  not stored.
\<close>

lemma poll_iteration_send_raises:
  assumes "fetch_res env = Inr data" and "model_validate data = Inr st"
    and "should_notify (display_title st) current_title"
    and "matrix_send_messages cfg" and "send_res env = Inl e"
  shows "fst (snd (poll_iteration cfg room env current_title)) = current_title"
  using assms(4,5)
  by (simp add: poll_iteration_of_body poll_body_changed [OF assms(1-3)] dispatch_def
      send_step_def)

text \<open>
  Claim C3 as stated fails for a call that fails by raising. With \<open>Track 1\<close> stored
  and \<open>room_send\<close> raising on \<open>Track 2\<close>, the handler of the iteration catches the
  exception, the stored title is still \<open>Track 1\<close>, and the next poll with \<open>Track 2\<close>
  announces it again: two entries of the branch and two \<open>room_send\<close> calls for one
  change.
\<close>

theorem send_raise_repeats_announcement:
  "fst (snd (poll_iteration demo_settings ''!radio:matrix.org''
       ((answers (titled ''Track 2''))\<lparr>send_res := Inl OtherError\<rparr>) (Some ''Track 1'')))
     = Some ''Track 1''
   \<and> dispatches (fst (poll_loop demo_settings ''!radio:matrix.org''
       [(answers (titled ''Track 2''))\<lparr>send_res := Inl OtherError\<rparr>,
        answers (titled ''Track 2'')] (Some ''Track 1''))) = 2
   \<and> sends (fst (poll_loop demo_settings ''!radio:matrix.org''
       [(answers (titled ''Track 2''))\<lparr>send_res := Inl OtherError\<rparr>,
        answers (titled ''Track 2'')] (Some ''Track 1''))) = 2"
proof -
  let ?bad = "(answers (titled ''Track 2''))\<lparr>send_res := Inl OtherError\<rparr>"
  let ?t = "display_title (no_fields\<lparr>title := Some ''Track 2''\<rparr>)"
  have t: "?t = ''Track 2''" by (simp add: display_title_titled)
  have n: "should_notify ?t (Some ''Track 1'')"
    by (simp add: t should_notify_iff)
  have f1: "fetch_res ?bad = Inr (titled ''Track 2'')" by (simp add: answers_def)
  have d: "dispatch demo_settings ''!radio:matrix.org'' ?bad ''Track 2'' (Some ''Track 1'')
      = ([Log (LogMusicChanged ''Track 2''),
          Call (RoomSend ''!radio:matrix.org'' (message_body ''Track 2''))],
         Some ''Track 1'', Some OtherError)"
    by (simp add: dispatch_def send_step_def answers_def demo_settings_def)
  have first: "poll_iteration demo_settings ''!radio:matrix.org'' ?bad (Some ''Track 1'')
      = ([Get (radio_api_url demo_settings), Log (LogMusicChanged ''Track 2''),
          Call (RoomSend ''!radio:matrix.org'' (message_body ''Track 2'')),
          Log LogUnexpected, Sleep (poll_interval demo_settings)],
         Some ''Track 1'', None)"
  proof -
    have pb: "poll_body demo_settings ''!radio:matrix.org'' ?bad (Some ''Track 1'')
        = ([Get (radio_api_url demo_settings), Log (LogMusicChanged ''Track 2''),
            Call (RoomSend ''!radio:matrix.org'' (message_body ''Track 2''))],
           Some ''Track 1'', Some OtherError)"
      by (simp add: poll_body_changed [OF f1 model_validate_titled n] t d)
    have sl: "sleep_res ?bad = None" by (simp add: answers_def)
    show ?thesis
      by (simp add: poll_iteration_def handlers_def pb sl is_Exception_def)
  qed
  have f2: "fetch_res (answers (titled ''Track 2'')) = Inr (titled ''Track 2'')"
    and rs: "send_res (answers (titled ''Track 2'')) = Inr RoomSendResponse"
    and rt: "topic_res (answers (titled ''Track 2'')) = Inr RoomPutStateResponse"
    by (simp_all add: answers_def)
  note second = poll_iteration_changed [OF f2 model_validate_titled n rs rt,
      of demo_settings "''!radio:matrix.org''"]
  have s2: "fst (send_step demo_settings ''!radio:matrix.org'' (answers (titled ''Track 2'')) ?t)
      = [Call (RoomSend ''!radio:matrix.org'' (message_body ''Track 2''))]"
    by (simp add: t send_step_def answers_def demo_settings_def)
  have p2: "fst (topic_step demo_settings ''!radio:matrix.org'' (answers (titled ''Track 2'')) ?t)
      = [Call (RoomPutState ''!radio:matrix.org'' (topic_text demo_settings ''Track 2'')),
         Log (LogTopicUpdated (topic_text demo_settings ''Track 2''))]"
    by (simp add: t topic_step_def answers_def demo_settings_def)
  have sl: "sleep_res (answers (titled ''Track 2'')) = None" by (simp add: answers_def)
  show ?thesis
    by (simp add: first second s2 [unfolded t] p2 [unfolded t] sl t dispatches_def sends_def)
qed

text \<open>
  Claim C7. An iteration whose fetch raises, or whose payload does not validate, leaves
  \<open>current_title\<close> as it was, calls the messaging client not at all and does not enter
  the branch that notifies. So a failed fetch followed by a poll that yields the title
  already stored makes no call either, and the title stays.
\<close>

theorem fetch_failure_keeps_title:
  assumes "fetch_res env = Inl e \<or> (\<exists>data. fetch_res env = Inr data \<and> model_validate data = Inl e)"
  shows "fst (snd (poll_iteration cfg room env current_title)) = current_title
       \<and> calls (fst (poll_iteration cfg room env current_title)) = []
       \<and> dispatches (fst (poll_iteration cfg room env current_title)) = 0
       \<and> (is_Exception e \<and> sleep_res env = None \<and> fetch_res env' = Inr data'
            \<and> model_validate data' = Inr st \<and> current_title = Some (display_title st) \<longrightarrow>
          calls (fst (poll_loop cfg room [env, env'] current_title)) = []
          \<and> dispatches (fst (poll_loop cfg room [env, env'] current_title)) = 0
          \<and> fst (snd (poll_loop cfg room [env, env'] current_title)) = current_title)"
proof -
  note it = poll_iteration_failure [OF assms, of cfg room current_title]
  have second: "poll_iteration cfg room env' current_title
      = ([Get (radio_api_url cfg), Sleep (poll_interval cfg)], current_title, sleep_res env')"
    if "fetch_res env' = Inr data'" "model_validate data' = Inr st"
      "current_title = Some (display_title st)"
  proof -
    from that(3) have "\<not> should_notify (display_title st) current_title"
      by (simp add: should_notify_iff)
    from poll_iteration_same [OF that(1,2) this] show ?thesis .
  qed
  from it second show ?thesis
    by (auto simp: calls_def dispatches_def split: option.splits)
qed

theorem fetch_failure_keeps_title_witness:
  "fst (snd (poll_iteration demo_settings ''!radio:matrix.org''
       ((answers PNone)\<lparr>fetch_res := Inl HTTPError\<rparr>) (Some ''Track 1''))) = Some ''Track 1''
   \<and> calls (fst (poll_loop demo_settings ''!radio:matrix.org''
       [(answers PNone)\<lparr>fetch_res := Inl HTTPError\<rparr>, answers (titled ''Track 1'')]
       (Some ''Track 1''))) = []"
proof -
  let ?env = "(answers PNone)\<lparr>fetch_res := Inl HTTPError\<rparr>"
  have f: "fetch_res ?env = Inl HTTPError
      \<or> (\<exists>data. fetch_res ?env = Inr data \<and> model_validate data = Inl HTTPError)"
    by (simp add: answers_def)
  from fetch_failure_keeps_title [OF f, of demo_settings "''!radio:matrix.org''"
      "Some ''Track 1''" "answers (titled ''Track 1'')" "titled ''Track 1''"
      "no_fields\<lparr>title := Some ''Track 1''\<rparr>"]
  show ?thesis
    by (simp add: model_validate_titled display_title_titled answers_def is_Exception_def)
qed

text \<open>
  Claim C9. Whatever the polls answer, a \<open>current_title\<close> that is a non-empty string
  before them is a non-empty string after them, and one that is \<open>None\<close> (line 103) is
  \<open>None\<close> or a non-empty string after them.
\<close>

theorem current_title_invariant:
  "(truthy current_title \<longrightarrow> truthy (fst (snd (poll_loop cfg room envs current_title))))
   \<and> (current_title = None \<longrightarrow> fst (snd (poll_loop cfg room envs current_title)) = None
        \<or> truthy (fst (snd (poll_loop cfg room envs current_title))))"
  by (rule poll_loop_title)

theorem current_title_invariant_witness:
  "truthy (fst (snd (poll_loop demo_settings ''!radio:matrix.org''
       [answers (PInt 42), answers (PDict [(PStr ''filename'', PStr ''music/'')])]
       (Some ''Track 1''))))
   \<and> (fst (snd (poll_loop demo_settings ''!radio:matrix.org''
       [answers (PInt 42), answers (PDict [(PStr ''filename'', PStr ''music/'')])] None)) = None
      \<or> truthy (fst (snd (poll_loop demo_settings ''!radio:matrix.org''
       [answers (PInt 42), answers (PDict [(PStr ''filename'', PStr ''music/'')])] None))))"
  using current_title_invariant [of "Some ''Track 1''" demo_settings "''!radio:matrix.org''"
      "[answers (PInt 42), answers (PDict [(PStr ''filename'', PStr ''music/'')])]"]
    current_title_invariant [of None demo_settings "''!radio:matrix.org''"
      "[answers (PInt 42), answers (PDict [(PStr ''filename'', PStr ''music/'')])]"]
  by simp


section \<open>Properties of setup and teardown\<close>

lemma setup_body_closes:
  "case setup_body cfg env of
     (evs, Proceed room) \<Rightarrow> closes evs = 0
   | (evs, Return) \<Rightarrow> closes evs = 1
   | (evs, Raise e) \<Rightarrow> closes evs = 0"
proof -
  have l: "case logout_close_return env of
     (evs, Proceed room) \<Rightarrow> False
   | (evs, Return) \<Rightarrow> closes evs = 1
   | (evs, Raise e) \<Rightarrow> closes evs = 0"
    by (cases "logout_res env") (simp_all add: logout_close_return_def closes_def)
  have r: "case resolve_step cfg env of
     (evs, Proceed room) \<Rightarrow> closes evs = 0
   | (evs, Return) \<Rightarrow> closes evs = 1
   | (evs, Raise e) \<Rightarrow> closes evs = 0"
    using l
    by (cases "logout_close_return env")
      (auto simp: resolve_step_def closes_def split: sum.splits resolve_response.splits flow.splits)
  have j: "case join_step env room of
     (evs, Proceed room) \<Rightarrow> closes evs = 0
   | (evs, Return) \<Rightarrow> closes evs = 1
   | (evs, Raise e) \<Rightarrow> closes evs = 0" for room
    using l
    by (cases "logout_close_return env")
      (auto simp: join_step_def closes_def split: sum.splits join_response.splits flow.splits)
  show ?thesis
  proof (cases "login_res env")
    case (Inl e)
    then show ?thesis by (simp add: setup_body_def closes_def)
  next
    case (Inr res)
    show ?thesis
    proof (cases res)
      case LoginError
      with Inr show ?thesis by (simp add: setup_body_def closes_def)
    next
      case LoginResponse
      obtain evs x where rs: "resolve_step cfg env = (evs, x)" by (cases "resolve_step cfg env")
      show ?thesis
      proof (cases x)
        case (Proceed room)
        obtain evs' y where js: "join_step env room = (evs', y)" by (cases "join_step env room")
        from r j [of room] Inr LoginResponse rs Proceed js show ?thesis
          by (cases y) (simp_all add: setup_body_def closes_def)
      next
        case Return
        with r Inr LoginResponse rs show ?thesis by (simp add: setup_body_def closes_def)
      next
        case (Raise e)
        with r Inr LoginResponse rs show ?thesis by (simp add: setup_body_def closes_def)
      qed
    qed
  qed
qed

lemma setup_try_closes:
  "case setup_try cfg env of
     (evs, Proceed room) \<Rightarrow> closes evs = 0
   | (evs, Return) \<Rightarrow> closes evs = 1
   | (evs, Raise e) \<Rightarrow> closes evs = 0 \<and> e = CancelledError"
proof -
  obtain evs x where b: "setup_body cfg env = (evs, x)" by (cases "setup_body cfg env")
  with setup_body_closes [of cfg env] show ?thesis
    by (cases x) (auto simp: setup_try_def closes_def is_Exception_def)
qed

text \<open>
  Where \<open>main\<close> does close the client once: the configuration is complete, \<open>logout\<close>
  returns, and the run has ended otherwise than by an interruption of the setup.
\<close>

lemma main_closes_once:
  assumes "config_complete cfg" and "logout_res env = None"
    and "main cfg env polls = (evs, x)" and "x \<noteq> Polling" and "x \<noteq> Propagated CancelledError
      \<or> (\<exists>room. snd (setup_try cfg env) = Proceed room)"
  shows "closes evs = 1"
proof -
  obtain evs0 y where s: "setup_try cfg env = (evs0, y)" by (cases "setup_try cfg env")
  show ?thesis
  proof (cases y)
    case (Proceed room)
    obtain evs1 t r where l: "poll_loop cfg room polls None = (evs1, t, r)"
      by (cases "poll_loop cfg room polls None")
    from poll_loop_no_close [of cfg room polls None] l have n: "closes evs1 = 0"
      by (simp add: closes_def)
    from setup_try_closes [of cfg env] s Proceed have n0: "closes evs0 = 0" by simp
    from assms(1-4) s Proceed l n n0 show ?thesis
      by (cases r) (auto simp: main_def finally_block_def closes_def)
  next
    case Return
    with setup_try_closes [of cfg env] s assms(1,3) show ?thesis
      by (auto simp: main_def)
  next
    case (Raise e)
    with setup_try_closes [of cfg env] s assms(1,3,5) show ?thesis
      by (auto simp: main_def)
  qed
qed

text \<open>
  Claim C4, the exit paths on which \<open>close\<close> is not called. An interruption at
  \<open>client.login\<close> is not an \<open>Exception\<close>: the handler of line 98 lets it through and
  \<open>main\<close> ends having called \<open>login\<close> only. And when \<open>logout\<close> raises in the
  \<open>finally\<close> block, line 177 is not reached.
\<close>

theorem main_interrupted_never_closes:
  "closes (fst (main demo_settings (demo_setup\<lparr>login_res := Inl CancelledError\<rparr>) polls)) = 0
   \<and> main demo_settings (demo_setup\<lparr>login_res := Inl CancelledError\<rparr>) polls
       = ([Call Login], Propagated CancelledError)
   \<and> closes (fst (main demo_settings (demo_setup\<lparr>logout_res := Some OtherError\<rparr>)
       [(answers (titled ''Track 1''))\<lparr>sleep_res := Some CancelledError\<rparr>])) = 0
   \<and> snd (main demo_settings (demo_setup\<lparr>logout_res := Some OtherError\<rparr>)
       [(answers (titled ''Track 1''))\<lparr>sleep_res := Some CancelledError\<rparr>])
       = Propagated OtherError"
proof -
  have c: "config_complete demo_settings"
    by (simp add: config_complete_def demo_settings_def)
  have a: "main demo_settings (demo_setup\<lparr>login_res := Inl CancelledError\<rparr>) polls
       = ([Call Login], Propagated CancelledError)"
    by (simp add: main_def c setup_try_def setup_body_def demo_setup_def is_Exception_def)
  have s: "setup_try demo_settings (demo_setup\<lparr>logout_res := Some OtherError\<rparr>)
      = ([Call Login, Call (Join ''!radio:matrix.org'')], Proceed ''!radio:matrix.org'')"
    by (simp add: setup_try_def setup_body_def resolve_step_def join_step_def demo_setup_def
        demo_settings_def startswith_hash_def)
  let ?env = "(answers (titled ''Track 1''))\<lparr>sleep_res := Some CancelledError\<rparr>"
  have f: "fetch_res ?env = Inr (titled ''Track 1'')" by (simp add: answers_def)
  have n: "should_notify (display_title (no_fields\<lparr>title := Some ''Track 1''\<rparr>)) None"
    by (simp add: display_title_titled should_notify_iff)
  have rs: "send_res ?env = Inr RoomSendResponse" and rt: "topic_res ?env = Inr RoomPutStateResponse"
    by (simp_all add: answers_def)
  note it = poll_iteration_changed [OF f model_validate_titled n rs rt,
      of demo_settings "''!radio:matrix.org''"]
  have r: "snd (snd (poll_iteration demo_settings ''!radio:matrix.org'' ?env None))
      = Some CancelledError"
    unfolding it by (simp add: answers_def)
  have nc: "filter (\<lambda>ev. ev = Call Close)
      (fst (poll_iteration demo_settings ''!radio:matrix.org'' ?env None)) = []"
    by (simp add: poll_iteration_of_body poll_body_no_close)
  obtain evs t where p: "poll_iteration demo_settings ''!radio:matrix.org'' ?env None
      = (evs, t, Some CancelledError)"
    using r by (cases "poll_iteration demo_settings ''!radio:matrix.org'' ?env None") auto
  with nc have nc': "filter (\<lambda>ev. ev = Call Close) evs = []" by simp
  have b: "closes (fst (main demo_settings (demo_setup\<lparr>logout_res := Some OtherError\<rparr>) [?env])) = 0
    \<and> snd (main demo_settings (demo_setup\<lparr>logout_res := Some OtherError\<rparr>) [?env])
       = Propagated OtherError"
    using nc' by (simp add: main_def c s p finally_block_def closes_def)
  from a b show ?thesis by (simp add: closes_def)
qed

end
